theory Spec2Isabelle
  imports Complex_Main
begin

section \<open>Scalars, sizes and errors\<close>

text \<open>
  The source file is \<^verbatim>\<open>src/neural/network_legacy.cc\<close>. Its vectors hold \<^verbatim>\<open>float\<close>
  values. They are embedded as \<^typ>\<open>real\<close>: \<^verbatim>\<open>+\<close>, \<^verbatim>\<open>-\<close>, \<^verbatim>\<open>*\<close>, \<^verbatim>\<open>/\<close> and
  \<^verbatim>\<open>std::sqrt\<close> are the exact operations of the reals, so rounding, overflow to
  infinity and NaN are not part of this model. The constant \<^verbatim>\<open>1e-5f\<close> is the
  rational \<open>1 / 100000\<close>.
\<close>

definition kEpsilon :: real where
  "kEpsilon = 1 / 100000"

text \<open>
  \<^verbatim>\<open>size_t\<close> is taken to be the unsigned 64-bit integer of a 64-bit platform: a natural
  number below \<open>2 ^ 64\<close>, with multiplication and addition wrapping around. The size of a
  vector is the length of the list; \<^verbatim>\<open>filterSize\<close> is a natural number.
\<close>

definition SIZE_MOD :: nat where
  "SIZE_MOD = 2 ^ 64"

definition size_mul :: "nat \<Rightarrow> nat \<Rightarrow> nat" where
  "size_mul a b = (a * b) mod SIZE_MOD"

definition size_add :: "nat \<Rightarrow> nat \<Rightarrow> nat" where
  "size_add a b = (a + b) mod SIZE_MOD"

text \<open>
  The source raises no exception. What it can do wrong is undefined behaviour of two
  kinds: \<^verbatim>\<open>operator[]\<close> or an iterator past the end of a vector, and an integer
  division by zero. Both are results of the model.
\<close>

datatype error = OutOfRange | DivisionByZero

section \<open>Data\<close>

text \<open>
  The serialized block \<^verbatim>\<open>pblczero::Weights::ConvBlock\<close> and \<^verbatim>\<open>LayerAdapter\<close> are not
  part of the source file. The constructor reads each of the six layers only through
  \<^verbatim>\<open>LayerAdapter(...).as_vector()\<close>, so the input of the model is the six flattened
  vectors.
\<close>

record PbConvBlock =
  pb_weights :: "real list"
  pb_biases :: "real list"
  pb_bn_gammas :: "real list"
  pb_bn_betas :: "real list"
  pb_bn_means :: "real list"
  pb_bn_stddivs :: "real list"

record ConvBlock =
  weights :: "real list"
  biases :: "real list"
  bn_gammas :: "real list"
  bn_betas :: "real list"
  bn_means :: "real list"
  bn_stddivs :: "real list"

section \<open>Loops\<close>

text \<open>
  \<^verbatim>\<open>for (auto i = size_t{0}; i < n; i++) body\<close> where the body leaves \<open>n\<close> unchanged:
  the body runs for \<open>i = 0, 1, ..., n - 1\<close> in this order. \<open>loop_n\<close> is the loop whose
  body cannot fail, \<open>for_n\<close> the one whose body can, stopping at the first failure.
\<close>

primrec loop_n :: "nat \<Rightarrow> (nat \<Rightarrow> 's \<Rightarrow> 's) \<Rightarrow> 's \<Rightarrow> 's" where
  "loop_n 0 body s = s"
| "loop_n (Suc n) body s = body n (loop_n n body s)"

primrec for_n :: "nat \<Rightarrow> (nat \<Rightarrow> 's \<Rightarrow> error + 's) \<Rightarrow> 's \<Rightarrow> error + 's" where
  "for_n 0 body s = Inr s"
| "for_n (Suc n) body s =
     (case for_n n body s of Inl e \<Rightarrow> Inl e | Inr s' \<Rightarrow> body n s')"

section \<open>The constructor\<close>

definition emplace_beta_gamma :: "nat \<Rightarrow> ConvBlock \<Rightarrow> ConvBlock" where
  "emplace_beta_gamma i cb =
     cb\<lparr>bn_betas := bn_betas cb @ [0], bn_gammas := bn_gammas cb @ [1]\<rparr>"

definition emplace_bias :: "nat \<Rightarrow> ConvBlock \<Rightarrow> ConvBlock" where
  "emplace_bias i cb = cb\<lparr>biases := biases cb @ [0]\<rparr>"

definition ConvBlock_ctor :: "PbConvBlock \<Rightarrow> ConvBlock" where
  "ConvBlock_ctor block =
     (let cb0 = \<lparr>weights = pb_weights block, biases = pb_biases block,
                 bn_gammas = pb_bn_gammas block, bn_betas = pb_bn_betas block,
                 bn_means = pb_bn_means block, bn_stddivs = pb_bn_stddivs block\<rparr>;
          cb1 = (if length (bn_betas cb0) = 0
                 then loop_n (length (bn_means cb0)) emplace_beta_gamma cb0
                 else cb0);
          cb2 = (if length (biases cb1) = 0
                 then loop_n (length (bn_means cb1)) emplace_bias cb1
                 else cb1)
      in cb2)"

section \<open>Vector helpers and accessors\<close>

text \<open>
  \<^verbatim>\<open>InvertVector\<close> and \<^verbatim>\<open>OffsetVector\<close> overwrite the vector their first argument
  points to; the model maps the old contents to the new contents. \<^verbatim>\<open>std::transform\<close>
  reads one element of \<^verbatim>\<open>biases\<close> for each element of \<^verbatim>\<open>means\<close>, so it runs past the end
  of \<^verbatim>\<open>biases\<close> when that vector is the shorter one.
\<close>

definition InvertVector :: "real list \<Rightarrow> real list" where
  "InvertVector vec = map (\<lambda>x. 1 / sqrt (x + kEpsilon)) vec"

definition OffsetVector :: "real list \<Rightarrow> real list \<Rightarrow> error + real list" where
  "OffsetVector means bs =
     (if length means \<le> length bs
      then Inr (map (\<lambda>(m, b). m - b) (zip means bs))
      else Inl OutOfRange)"

text \<open>The two mutating methods write the result back into the block.\<close>

definition InvertStddev :: "ConvBlock \<Rightarrow> ConvBlock" where
  "InvertStddev cb = cb\<lparr>bn_stddivs := InvertVector (bn_stddivs cb)\<rparr>"

definition OffsetMeans :: "ConvBlock \<Rightarrow> error + ConvBlock" where
  "OffsetMeans cb =
     (case OffsetVector (bn_means cb) (biases cb) of
        Inl e \<Rightarrow> Inl e
      | Inr means \<Rightarrow> Inr (cb\<lparr>bn_means := means\<rparr>))"

text \<open>
  The two \<^verbatim>\<open>const\<close> accessors copy the vector into a local and hand the local to the
  helper. The model returns the vector together with the block as it is after the call.
\<close>

definition GetInvertedStddev :: "ConvBlock \<Rightarrow> real list \<times> ConvBlock" where
  "GetInvertedStddev cb =
     (let stddivs = bn_stddivs cb;
          stddivs' = InvertVector stddivs
      in (stddivs', cb))"

definition GetOffsetMeans :: "ConvBlock \<Rightarrow> error + real list \<times> ConvBlock" where
  "GetOffsetMeans cb =
     (let means = bn_means cb
      in case OffsetVector means (biases cb) of
           Inl e \<Rightarrow> Inl e
         | Inr means' \<Rightarrow> Inr (means', cb))"

section \<open>Folding the batch normalization\<close>

text \<open>The body of the first loop of \<^verbatim>\<open>FoldBN\<close>, at index \<open>i\<close>.\<close>

definition variance_to_gamma :: "nat \<Rightarrow> ConvBlock \<Rightarrow> error + ConvBlock" where
  "variance_to_gamma i cb =
     (if i < length (bn_gammas cb) \<and> i < length (bn_stddivs cb) \<and>
         i < length (bn_means cb) \<and> i < length (biases cb)
      then
        (let cb1 = cb\<lparr>bn_gammas := (bn_gammas cb)
                        [i := bn_gammas cb ! i * (1 / sqrt (bn_stddivs cb ! i + 1 / 100000))]\<rparr>;
             cb2 = cb1\<lparr>bn_stddivs := (bn_stddivs cb1)[i := 1]\<rparr>;
             cb3 = cb2\<lparr>bn_means := (bn_means cb2)[i := bn_means cb2 ! i - biases cb2 ! i]\<rparr>;
             cb4 = cb3\<lparr>biases := (biases cb3)[i := 0]\<rparr>
         in Inr cb4)
      else Inl OutOfRange)"

text \<open>
  The innermost statement: \<^verbatim>\<open>weights[o * inputs * spatialSize + c * spatialSize + i] *= bn_gammas[o]\<close>,
  the index computed in \<^verbatim>\<open>size_t\<close>.
\<close>

definition scale_weight :: "nat \<Rightarrow> nat \<Rightarrow> nat \<Rightarrow> nat \<Rightarrow> nat \<Rightarrow> ConvBlock \<Rightarrow> error + ConvBlock" where
  "scale_weight inputs spatialSize oc c i cb =
     (let idx = size_add (size_add (size_mul (size_mul oc inputs) spatialSize)
                                   (size_mul c spatialSize)) i
      in if idx < length (weights cb) \<and> oc < length (bn_gammas cb)
         then Inr (cb\<lparr>weights := (weights cb)[idx := weights cb ! idx * bn_gammas cb ! oc]\<rparr>)
         else Inl OutOfRange)"

text \<open>The body of the loop over the output channels, at channel \<open>oc\<close>.\<close>

definition fold_output :: "nat \<Rightarrow> nat \<Rightarrow> nat \<Rightarrow> ConvBlock \<Rightarrow> error + ConvBlock" where
  "fold_output inputs spatialSize oc cb =
     (case for_n inputs (\<lambda>c. for_n spatialSize (scale_weight inputs spatialSize oc c)) cb of
        Inl e \<Rightarrow> Inl e
      | Inr cb1 \<Rightarrow>
          if oc < length (biases cb1) \<and> oc < length (bn_gammas cb1) \<and>
             oc < length (bn_means cb1) \<and> oc < length (bn_betas cb1)
          then
            (let cb2 = cb1\<lparr>biases := (biases cb1)
                          [oc := - (bn_gammas cb1 ! oc) * bn_means cb1 ! oc + bn_betas cb1 ! oc]\<rparr>;
                 cb3 = cb2\<lparr>bn_means := (bn_means cb2)[oc := 0]\<rparr>;
                 cb4 = cb3\<lparr>bn_betas := (bn_betas cb3)[oc := 0]\<rparr>
             in Inr cb4)
          else Inl OutOfRange)"

definition FoldBN :: "ConvBlock \<Rightarrow> nat \<Rightarrow> error + ConvBlock" where
  "FoldBN cb filterSize =
     (case for_n (length (bn_stddivs cb)) variance_to_gamma cb of
        Inl e \<Rightarrow> Inl e
      | Inr cb1 \<Rightarrow>
          (let spatialSize = size_mul filterSize filterSize;
               outputs = length (biases cb1);
               divisor = size_mul outputs spatialSize
           in if divisor = 0 then Inl DivisionByZero
              else
                (let inputs = length (weights cb1) div divisor
                 in for_n outputs (fold_output inputs spatialSize) cb1)))"

section \<open>Closed forms of the loops\<close>

text \<open>
  The states the loops of \<^verbatim>\<open>FoldBN\<close> pass through, written without recursion. They are
  not part of the program; the lemmas below prove that the loops compute them.
  \<open>scale_range ws g lo hi\<close> multiplies the elements of \<open>ws\<close> at the indices from \<open>lo\<close> up
  to \<open>hi - 1\<close> by \<open>g\<close>; \<open>scale_channels ws g K k\<close> multiplies, for each of the first \<open>k\<close>
  blocks of \<open>K\<close> elements, the elements of the block by the block's entry of \<open>g\<close>.
\<close>

definition scale_range :: "real list \<Rightarrow> real \<Rightarrow> nat \<Rightarrow> nat \<Rightarrow> real list" where
  "scale_range ws g lo hi =
     map (\<lambda>j. if lo \<le> j \<and> j < hi then ws ! j * g else ws ! j) [0..<length ws]"

definition scale_channels :: "real list \<Rightarrow> real list \<Rightarrow> nat \<Rightarrow> nat \<Rightarrow> real list" where
  "scale_channels ws g K k =
     map (\<lambda>j. if j < k * K then ws ! j * g ! (j div K) else ws ! j) [0..<length ws]"

text \<open>The block after \<open>i\<close> rounds of the first loop.\<close>

definition after_variance_to_gamma :: "ConvBlock \<Rightarrow> nat \<Rightarrow> ConvBlock" where
  "after_variance_to_gamma cb i =
     cb\<lparr>bn_gammas := map (\<lambda>j. if j < i then bn_gammas cb ! j * (1 / sqrt (bn_stddivs cb ! j + 1 / 100000))
                               else bn_gammas cb ! j) [0..<length (bn_gammas cb)],
        bn_stddivs := map (\<lambda>j. if j < i then 1 else bn_stddivs cb ! j) [0..<length (bn_stddivs cb)],
        bn_means := map (\<lambda>j. if j < i then bn_means cb ! j - biases cb ! j else bn_means cb ! j)
                      [0..<length (bn_means cb)],
        biases := map (\<lambda>j. if j < i then 0 else biases cb ! j) [0..<length (biases cb)]\<rparr>"

text \<open>The block after \<open>k\<close> rounds of the loop over the output channels.\<close>

definition after_fold_output :: "ConvBlock \<Rightarrow> nat \<Rightarrow> nat \<Rightarrow> nat \<Rightarrow> ConvBlock" where
  "after_fold_output cb inputs spatialSize k =
     cb\<lparr>weights := scale_channels (weights cb) (bn_gammas cb) (inputs * spatialSize) k,
        biases := map (\<lambda>j. if j < k then - (bn_gammas cb ! j) * bn_means cb ! j + bn_betas cb ! j
                            else biases cb ! j) [0..<length (biases cb)],
        bn_means := map (\<lambda>j. if j < k then 0 else bn_means cb ! j) [0..<length (bn_means cb)],
        bn_betas := map (\<lambda>j. if j < k then 0 else bn_betas cb ! j) [0..<length (bn_betas cb)]\<rparr>"

definition FoldBN_result :: "ConvBlock \<Rightarrow> nat \<Rightarrow> ConvBlock" where
  "FoldBN_result cb filterSize =
     (let n = length (bn_stddivs cb);
          spatialSize = filterSize * filterSize;
          inputs = length (weights cb) div (n * spatialSize)
      in after_fold_output (after_variance_to_gamma cb n) inputs spatialSize n)"

text \<open>
  What \<^verbatim>\<open>FoldBN\<close> needs to run without undefined behaviour and without wrap-around:
  one statistic of each kind and one bias per output channel, at least one channel, a
  positive filter size, and sizes that fit \<^verbatim>\<open>size_t\<close>.
\<close>

definition fold_ready :: "ConvBlock \<Rightarrow> nat \<Rightarrow> bool" where
  "fold_ready cb filterSize =
     (length (biases cb) = length (bn_stddivs cb) \<and>
      length (bn_gammas cb) = length (bn_stddivs cb) \<and>
      length (bn_betas cb) = length (bn_stddivs cb) \<and>
      length (bn_means cb) = length (bn_stddivs cb) \<and>
      0 < length (bn_stddivs cb) \<and> 0 < filterSize \<and>
      length (bn_stddivs cb) * (filterSize * filterSize) < 2 ^ 64 \<and>
      length (weights cb) < 2 ^ 64)"

text \<open>The six vectors of \<open>t\<close> have the sizes they have in \<open>cb\<close>.\<close>

definition same_sizes :: "ConvBlock \<Rightarrow> ConvBlock \<Rightarrow> bool" where
  "same_sizes cb t =
     (length (weights t) = length (weights cb) \<and> length (biases t) = length (biases cb) \<and>
      length (bn_gammas t) = length (bn_gammas cb) \<and> length (bn_betas t) = length (bn_betas cb) \<and>
      length (bn_means t) = length (bn_means cb) \<and> length (bn_stddivs t) = length (bn_stddivs cb))"

section \<open>The convolution and the batch normalization\<close>

text \<open>
  Modelled from the spec: the convolution is computed by the compute backend, which is
  not in the source file. The spec gives the layout of the kernel: \<^verbatim>\<open>weights\<close> ordered
  \<^verbatim>\<open>[output_channel][input_channel][spatial_position]\<close>, and one bias per output channel.
  \<open>conv_out cb inputs spatialSize oc x\<close> is one output value of channel \<open>oc\<close>: the kernel of
  that channel against the input values \<open>x c p\<close> that lie under it (input channel \<open>c\<close>,
  kernel position \<open>p\<close>), plus the bias. Every output position of every input tensor gives
  such a family \<open>x\<close> (padding gives zeros), so a statement for all \<open>x\<close> is a statement for
  all input tensors.
\<close>

definition conv_out :: "ConvBlock \<Rightarrow> nat \<Rightarrow> nat \<Rightarrow> nat \<Rightarrow> (nat \<Rightarrow> nat \<Rightarrow> real) \<Rightarrow> real" where
  "conv_out cb inputs spatialSize oc x =
     (\<Sum>c\<leftarrow>[0..<inputs]. \<Sum>p\<leftarrow>[0..<spatialSize].
        weights cb ! (oc * inputs * spatialSize + c * spatialSize + p) * x c p)
     + biases cb ! oc"

text \<open>
  Modelled from the spec: the inference-time batch normalization of the compute backend,
  which is not in the source file. The spec's glossary gives it as the per-channel
  transform \<^verbatim>\<open>(x - mean) * invStddev * gamma + beta\<close>, with
  \<^verbatim>\<open>invStddev = 1 / sqrt(stddev + 1e-5)\<close>.
\<close>

definition batch_norm :: "ConvBlock \<Rightarrow> nat \<Rightarrow> real \<Rightarrow> real" where
  "batch_norm cb oc y =
     (y - bn_means cb ! oc) * (1 / sqrt (bn_stddivs cb ! oc + 1 / 100000)) * bn_gammas cb ! oc
     + bn_betas cb ! oc"

section \<open>Concrete inputs\<close>

text \<open>
  The block of the spec's worked example: one output channel, one input channel, a
  \<open>1 \<times> 1\<close> kernel, and a variance chosen so that \<open>stddev + 1e-5 = 9\<close>.
\<close>

definition c1_block :: ConvBlock where
  "c1_block = \<lparr>weights = [2], biases = [1], bn_gammas = [3], bn_betas = [1 / 2],
                bn_means = [4], bn_stddivs = [9 - 1 / 100000]\<rparr>"

text \<open>
  The shape of the spec's divisibility example (ten weights, three output channels,
  filter size two), and a block of one channel with the same ten weights.
\<close>

definition c2_block :: ConvBlock where
  "c2_block = \<lparr>weights = [1, 2, 3, 4, 5, 6, 7, 8, 9, 10], biases = [0, 0, 0],
                bn_gammas = [2, 2, 2], bn_betas = [0, 0, 0], bn_means = [1, 1, 1],
                bn_stddivs = [1 - 1 / 100000, 1 - 1 / 100000, 1 - 1 / 100000]\<rparr>"

definition c2_single :: ConvBlock where
  "c2_single = \<lparr>weights = [1, 2, 3, 4, 5, 6, 7, 8, 9, 10], biases = [0],
                bn_gammas = [2], bn_betas = [0], bn_means = [1],
                bn_stddivs = [1 - 1 / 100000]\<rparr>"

text \<open>Serialized blocks whose layers do not have matching sizes.\<close>

definition c3_input :: PbConvBlock where
  "c3_input = \<lparr>pb_weights = [1], pb_biases = [], pb_bn_gammas = [], pb_bn_betas = [],
                pb_bn_means = [0], pb_bn_stddivs = [1, 2]\<rparr>"

definition c4_input :: PbConvBlock where
  "c4_input = \<lparr>pb_weights = [1, 1], pb_biases = [0, 0], pb_bn_gammas = [5], pb_bn_betas = [],
                pb_bn_means = [0, 0], pb_bn_stddivs = [1, 1]\<rparr>"

text \<open>Two serialized blocks of two channels: one without the bias layer, one with it.\<close>

definition c5_absent :: PbConvBlock where
  "c5_absent = \<lparr>pb_weights = [2, 3], pb_biases = [], pb_bn_gammas = [1, 1],
                 pb_bn_betas = [0, 0], pb_bn_means = [4, 5], pb_bn_stddivs = [1, 1]\<rparr>"

definition c5_present :: PbConvBlock where
  "c5_present = \<lparr>pb_weights = [2, 3], pb_biases = [7, 0], pb_bn_gammas = [1, 1],
                  pb_bn_betas = [0, 0], pb_bn_means = [4, 5], pb_bn_stddivs = [1, 1]\<rparr>"

definition c6_input :: PbConvBlock where
  "c6_input = \<lparr>pb_weights = [1], pb_biases = [1, 2, 3], pb_bn_gammas = [1], pb_bn_betas = [0],
                pb_bn_means = [0], pb_bn_stddivs = [1]\<rparr>"

definition c6_legacy :: PbConvBlock where
  "c6_legacy = \<lparr>pb_weights = [1, 1], pb_biases = [], pb_bn_gammas = [], pb_bn_betas = [],
                 pb_bn_means = [3, 4], pb_bn_stddivs = [1, 1]\<rparr>"

text \<open>
  The worked example again, what one \<^verbatim>\<open>FoldBN(1)\<close> makes of it, and what a second
  \<^verbatim>\<open>FoldBN(1)\<close> makes of that.
\<close>

definition c7_block :: ConvBlock where
  "c7_block = \<lparr>weights = [2], biases = [1], bn_gammas = [3], bn_betas = [1 / 2],
                bn_means = [4], bn_stddivs = [9 - 1 / 100000]\<rparr>"

definition c7_folded :: ConvBlock where
  "c7_folded = \<lparr>weights = [2], biases = [- 5 / 2], bn_gammas = [1], bn_betas = [0],
                 bn_means = [0], bn_stddivs = [1]\<rparr>"

definition c7_refolded :: ConvBlock where
  "c7_refolded = \<lparr>weights = [2 * (1 / sqrt (1 + 1 / 100000))],
                   biases = [1 / sqrt (1 + 1 / 100000) * (- 5 / 2)],
                   bn_gammas = [1 / sqrt (1 + 1 / 100000)], bn_betas = [0],
                   bn_means = [0], bn_stddivs = [1]\<rparr>"

text \<open>
  A serialized block of two channels with a single bias, a block of two channels with a
  bias for each mean, and a block of one channel.
\<close>

definition c9_input :: PbConvBlock where
  "c9_input = \<lparr>pb_weights = [2, 2], pb_biases = [1], pb_bn_gammas = [1, 1],
                pb_bn_betas = [0, 0], pb_bn_means = [4, 10], pb_bn_stddivs = [1, 1]\<rparr>"

definition c9_block :: ConvBlock where
  "c9_block = \<lparr>weights = [2, 2], biases = [1, 3], bn_gammas = [1, 1], bn_betas = [0, 0],
                bn_means = [4, 10], bn_stddivs = [1, 1]\<rparr>"

definition c10_block :: ConvBlock where
  "c10_block = \<lparr>weights = [2], biases = [1], bn_gammas = [3], bn_betas = [1 / 2],
                 bn_means = [4], bn_stddivs = [1]\<rparr>"

section \<open>The constructor: results\<close>

lemma loop_emplace_beta_gamma:
  "loop_n n emplace_beta_gamma cb =
     cb\<lparr>bn_betas := bn_betas cb @ replicate n 0, bn_gammas := bn_gammas cb @ replicate n 1\<rparr>"
  by (induction n) (simp_all add: emplace_beta_gamma_def replicate_append_same)

lemma loop_emplace_bias:
  "loop_n n emplace_bias cb = cb\<lparr>biases := biases cb @ replicate n 0\<rparr>"
  by (induction n) (simp_all add: emplace_bias_def replicate_append_same)

lemma ctor_weights: "weights (ConvBlock_ctor b) = pb_weights b"
  by (simp add: ConvBlock_ctor_def Let_def loop_emplace_beta_gamma loop_emplace_bias)

lemma ctor_means: "bn_means (ConvBlock_ctor b) = pb_bn_means b"
  by (simp add: ConvBlock_ctor_def Let_def loop_emplace_beta_gamma loop_emplace_bias)

lemma ctor_stddivs: "bn_stddivs (ConvBlock_ctor b) = pb_bn_stddivs b"
  by (simp add: ConvBlock_ctor_def Let_def loop_emplace_beta_gamma loop_emplace_bias)

lemma ctor_biases:
  "biases (ConvBlock_ctor b) =
     (if pb_biases b = [] then replicate (length (pb_bn_means b)) 0 else pb_biases b)"
  by (simp add: ConvBlock_ctor_def Let_def loop_emplace_beta_gamma loop_emplace_bias)

lemma ctor_betas:
  "bn_betas (ConvBlock_ctor b) =
     (if pb_bn_betas b = [] then replicate (length (pb_bn_means b)) 0 else pb_bn_betas b)"
  by (simp add: ConvBlock_ctor_def Let_def loop_emplace_beta_gamma loop_emplace_bias)

lemma ctor_gammas:
  "bn_gammas (ConvBlock_ctor b) =
     (if pb_bn_betas b = [] then pb_bn_gammas b @ replicate (length (pb_bn_means b)) 1
      else pb_bn_gammas b)"
  by (simp add: ConvBlock_ctor_def Let_def loop_emplace_beta_gamma loop_emplace_bias)

lemma ctor_eq:
  "ConvBlock_ctor b =
     \<lparr>weights = pb_weights b,
      biases = (if pb_biases b = [] then replicate (length (pb_bn_means b)) 0 else pb_biases b),
      bn_gammas = (if pb_bn_betas b = [] then pb_bn_gammas b @ replicate (length (pb_bn_means b)) 1
                   else pb_bn_gammas b),
      bn_betas = (if pb_bn_betas b = [] then replicate (length (pb_bn_means b)) 0 else pb_bn_betas b),
      bn_means = pb_bn_means b,
      bn_stddivs = pb_bn_stddivs b\<rparr>"
  by (simp add: ConvBlock_ctor_def Let_def loop_emplace_beta_gamma loop_emplace_bias)

section \<open>The loops of FoldBN\<close>

lemma map_upt_update:
  "i < n \<Longrightarrow> (map f [0..<n])[i := v] = map (f(i := v)) [0..<n]"
  by (auto simp: list_eq_iff_nth_eq nth_list_update)

lemma after_v2g_0: "after_variance_to_gamma cb 0 = cb"
  by (simp add: after_variance_to_gamma_def map_nth)

lemma v2g_step:
  assumes "i < length (bn_gammas cb)" "i < length (bn_stddivs cb)"
    "i < length (bn_means cb)" "i < length (biases cb)"
  shows "variance_to_gamma i (after_variance_to_gamma cb i) = Inr (after_variance_to_gamma cb (Suc i))"
  using assms
  by (auto simp: variance_to_gamma_def after_variance_to_gamma_def Let_def map_upt_update 
       less_Suc_eq intro!: ConvBlock.equality)

lemma v2g_loop:
  assumes "n \<le> length (bn_gammas cb)" "n \<le> length (bn_stddivs cb)"
    "n \<le> length (bn_means cb)" "n \<le> length (biases cb)"
  shows "for_n n variance_to_gamma cb = Inr (after_variance_to_gamma cb n)"
  using assms
proof (induction n)
  case 0
  then show ?case by (simp add: after_v2g_0)
next
  case (Suc n)
  then show ?case by (simp add: v2g_step)
qed

lemma idx_nowrap:
  "oc * inputs * spatialSize + c * spatialSize + i < SIZE_MOD \<Longrightarrow>
   size_add (size_add (size_mul (size_mul oc inputs) spatialSize) (size_mul c spatialSize)) i
     = oc * inputs * spatialSize + c * spatialSize + i"
  by (simp add: size_add_def size_mul_def mod_simps)


lemma scale_range_length [simp]: "length (scale_range ws g lo hi) = length ws"
  by (simp add: scale_range_def)

lemma scale_range_nth:
  "j < length ws \<Longrightarrow>
   scale_range ws g lo hi ! j = (if lo \<le> j \<and> j < hi then ws ! j * g else ws ! j)"
  by (simp add: scale_range_def)

lemma scale_range_empty: "hi \<le> lo \<Longrightarrow> scale_range ws g lo hi = ws"
  by (rule nth_equalityI) (simp_all add: scale_range_nth)

lemma scale_range_step:
  "lo \<le> hi \<Longrightarrow> hi < length ws \<Longrightarrow>
   (scale_range ws g lo hi)[hi := scale_range ws g lo hi ! hi * g] = scale_range ws g lo (Suc hi)"
  by (rule nth_equalityI) (auto simp: scale_range_nth nth_list_update)

lemma scale_range_join:
  "a \<le> b \<Longrightarrow> b \<le> c \<Longrightarrow> scale_range (scale_range ws g a b) g b c = scale_range ws g a c"
  by (rule nth_equalityI) (auto simp: scale_range_nth)

lemma inner_loop:
  assumes "oc * inputs * spatialSize + c * spatialSize + k \<le> length (weights cb)"
    and "length (weights cb) < SIZE_MOD" and "oc < length (bn_gammas cb)"
  shows "for_n k (scale_weight inputs spatialSize oc c) cb =
         Inr (cb\<lparr>weights := scale_range (weights cb) (bn_gammas cb ! oc)
                (oc * inputs * spatialSize + c * spatialSize)
                (oc * inputs * spatialSize + c * spatialSize + k)\<rparr>)"
  using assms
proof (induction k)
  case 0
  then show ?case by (simp add: scale_range_empty)
next
  case (Suc k)
  let ?b = "oc * inputs * spatialSize + c * spatialSize"
  have lt: "?b + k < length (weights cb)" using Suc.prems by simp
  then have nw: "?b + k < SIZE_MOD" using Suc.prems by simp
  have ih: "for_n k (scale_weight inputs spatialSize oc c) cb =
         Inr (cb\<lparr>weights := scale_range (weights cb) (bn_gammas cb ! oc) ?b (?b + k)\<rparr>)"
    using Suc by simp
  have "for_n (Suc k) (scale_weight inputs spatialSize oc c) cb =
        scale_weight inputs spatialSize oc c k
          (cb\<lparr>weights := scale_range (weights cb) (bn_gammas cb ! oc) ?b (?b + k)\<rparr>)"
    by (simp only: for_n.simps ih sum.case)
  also have "\<dots> = Inr (cb\<lparr>weights := scale_range (weights cb) (bn_gammas cb ! oc) ?b (?b + Suc k)\<rparr>)"
    using lt Suc.prems(3)
    by (simp add: scale_weight_def idx_nowrap [OF nw] Let_def scale_range_step)
  finally show ?case .
qed

lemma middle_loop:
  assumes "oc * inputs * spatialSize + k * spatialSize \<le> length (weights cb)"
    and "length (weights cb) < SIZE_MOD" and "oc < length (bn_gammas cb)"
  shows "for_n k (\<lambda>c. for_n spatialSize (scale_weight inputs spatialSize oc c)) cb =
         Inr (cb\<lparr>weights := scale_range (weights cb) (bn_gammas cb ! oc)
                (oc * inputs * spatialSize)
                (oc * inputs * spatialSize + k * spatialSize)\<rparr>)"
  using assms
proof (induction k)
  case 0
  then show ?case by (simp add: scale_range_empty)
next
  case (Suc k)
  let ?b = "oc * inputs * spatialSize"
  let ?cb = "cb\<lparr>weights := scale_range (weights cb) (bn_gammas cb ! oc) ?b (?b + k * spatialSize)\<rparr>"
  have ih: "for_n k (\<lambda>c. for_n spatialSize (scale_weight inputs spatialSize oc c)) cb = Inr ?cb"
    using Suc by simp
  have "for_n spatialSize (scale_weight inputs spatialSize oc k) ?cb =
        Inr (?cb\<lparr>weights := scale_range (weights ?cb) (bn_gammas ?cb ! oc)
                (?b + k * spatialSize) (?b + k * spatialSize + spatialSize)\<rparr>)"
    using Suc.prems by (intro inner_loop) simp_all
  then have "for_n (Suc k) (\<lambda>c. for_n spatialSize (scale_weight inputs spatialSize oc c)) cb =
        Inr (?cb\<lparr>weights := scale_range (weights ?cb) (bn_gammas ?cb ! oc)
                (?b + k * spatialSize) (?b + k * spatialSize + spatialSize)\<rparr>)"
    by (simp only: for_n.simps ih sum.case)
  also have "\<dots> = Inr (cb\<lparr>weights := scale_range (weights cb) (bn_gammas cb ! oc)
                ?b (?b + Suc k * spatialSize)\<rparr>)"
    by (simp add: scale_range_join add.assoc add.commute [of spatialSize])
  finally show ?case .
qed

lemma after_fold_output_0: "after_fold_output cb inputs spatialSize 0 = cb"
  by (simp add: after_fold_output_def scale_channels_def map_nth)

lemma channel_of_index:
  fixes j :: nat
  assumes "k * K \<le> j" "j < k * K + K"
  shows "j div K = k"
  using assms by (intro div_nat_eqI) (simp_all add: mult.commute)

lemma scale_channel:
  "scale_range (scale_channels ws g K k) (g ! k) (k * K) (k * K + K) = scale_channels ws g K (Suc k)"
proof (rule nth_equalityI)
  show "length (scale_range (scale_channels ws g K k) (g ! k) (k * K) (k * K + K)) =
        length (scale_channels ws g K (Suc k))"
    by (simp add: scale_channels_def)
next
  fix j assume "j < length (scale_range (scale_channels ws g K k) (g ! k) (k * K) (k * K + K))"
  then have j: "j < length ws" by (simp add: scale_channels_def)
  show "scale_range (scale_channels ws g K k) (g ! k) (k * K) (k * K + K) ! j =
        scale_channels ws g K (Suc k) ! j"
    using j by (auto simp: scale_range_nth scale_channels_def channel_of_index)
qed

lemma fold_output_step:
  assumes w: "Suc k * (inputs * spatialSize) \<le> length (weights cb)" "length (weights cb) < SIZE_MOD"
    and k: "k < length (biases cb)" "k < length (bn_gammas cb)"
           "k < length (bn_means cb)" "k < length (bn_betas cb)"
  shows "fold_output inputs spatialSize k (after_fold_output cb inputs spatialSize k) =
         Inr (after_fold_output cb inputs spatialSize (Suc k))"
proof -
  let ?K = "inputs * spatialSize"
  let ?s = "after_fold_output cb inputs spatialSize k"
  have len: "length (weights ?s) = length (weights cb)" "bn_gammas ?s = bn_gammas cb"
    by (simp_all add: after_fold_output_def scale_channels_def)
  have "for_n inputs (\<lambda>c. for_n spatialSize (scale_weight inputs spatialSize k c)) ?s =
        Inr (?s\<lparr>weights := scale_range (weights ?s) (bn_gammas ?s ! k)
                (k * inputs * spatialSize) (k * inputs * spatialSize + inputs * spatialSize)\<rparr>)"
    using w k by (intro middle_loop) (simp_all add: len mult.assoc add.commute)
  also have "scale_range (weights ?s) (bn_gammas ?s ! k)
                (k * inputs * spatialSize) (k * inputs * spatialSize + inputs * spatialSize) =
             weights (after_fold_output cb inputs spatialSize (Suc k))"
    using scale_channel [of "weights cb" "bn_gammas cb" ?K k]
    by (simp add: after_fold_output_def mult.assoc)
  finally have inner: "for_n inputs (\<lambda>c. for_n spatialSize (scale_weight inputs spatialSize k c)) ?s =
        Inr (?s\<lparr>weights := weights (after_fold_output cb inputs spatialSize (Suc k))\<rparr>)" .
  show ?thesis
    unfolding fold_output_def inner
    using k
    by (auto simp: after_fold_output_def Let_def map_upt_update less_Suc_eq
             intro!: ConvBlock.equality)
qed

lemma fold_output_loop:
  assumes "k * (inputs * spatialSize) \<le> length (weights cb)" "length (weights cb) < SIZE_MOD"
    and "k \<le> length (biases cb)" "k \<le> length (bn_gammas cb)"
        "k \<le> length (bn_means cb)" "k \<le> length (bn_betas cb)"
  shows "for_n k (fold_output inputs spatialSize) cb = Inr (after_fold_output cb inputs spatialSize k)"
  using assms
proof (induction k)
  case 0
  then show ?case by (simp add: after_fold_output_0)
next
  case (Suc k)
  have "k * (inputs * spatialSize) \<le> Suc k * (inputs * spatialSize)" by simp
  with Suc.prems have "k * (inputs * spatialSize) \<le> length (weights cb)" by linarith
  with Suc have ih: "for_n k (fold_output inputs spatialSize) cb =
      Inr (after_fold_output cb inputs spatialSize k)" by simp
  show ?case
    using Suc.prems by (simp only: for_n.simps ih sum.case) (simp add: fold_output_step)
qed

lemma FoldBN_closed:
  assumes "fold_ready cb filterSize"
  shows "FoldBN cb filterSize = Inr (FoldBN_result cb filterSize)"
proof -
  let ?n = "length (bn_stddivs cb)"
  let ?S = "filterSize * filterSize"
  let ?cb1 = "after_variance_to_gamma cb ?n"
  let ?I = "length (weights cb) div (?n * ?S)"
  from assms have len: "length (biases cb) = ?n" "length (bn_gammas cb) = ?n"
    "length (bn_betas cb) = ?n" "length (bn_means cb) = ?n"
    and pos: "0 < ?n" "0 < filterSize"
    and fit: "?n * ?S < SIZE_MOD" "length (weights cb) < SIZE_MOD"
    by (simp_all add: fold_ready_def SIZE_MOD_def)
  have l1: "for_n ?n variance_to_gamma cb = Inr ?cb1"
    by (rule v2g_loop) (simp_all add: len)
  have len1: "length (biases ?cb1) = ?n" "length (bn_gammas ?cb1) = ?n"
    "length (bn_betas ?cb1) = ?n" "length (bn_means ?cb1) = ?n"
    "weights ?cb1 = weights cb"
    by (simp_all add: after_variance_to_gamma_def len)
  have "?S \<le> ?n * ?S" using pos(1) by (cases ?n) simp_all
  then have "?S < SIZE_MOD" using fit(1) by (rule le_less_trans)
  then have S: "size_mul filterSize filterSize = ?S"
    by (simp add: size_mul_def)
  have d: "size_mul ?n ?S = ?n * ?S" using fit by (simp add: size_mul_def)
  have dpos: "?n * ?S \<noteq> 0" using pos by simp
  have "?n * (?I * ?S) = ?I * (?n * ?S)" by (rule mult.left_commute)
  also have "\<dots> \<le> length (weights cb)" by (rule div_times_less_eq_dividend)
  finally have room: "?n * (?I * ?S) \<le> length (weights ?cb1)"
    by (simp only: len1)
  have l2: "for_n ?n (fold_output ?I ?S) ?cb1 = Inr (after_fold_output ?cb1 ?I ?S ?n)"
    using room fit by (intro fold_output_loop) (simp_all add: len1)
  show ?thesis
    unfolding FoldBN_def l1
    using dpos by (simp add: Let_def len1 S d l2 FoldBN_result_def)
qed

lemma FoldBN_result_stats:
  assumes "fold_ready cb filterSize"
  shows "bn_stddivs (FoldBN_result cb filterSize) = replicate (length (bn_stddivs cb)) 1"
    and "bn_means (FoldBN_result cb filterSize) = replicate (length (bn_stddivs cb)) 0"
    and "bn_betas (FoldBN_result cb filterSize) = replicate (length (bn_stddivs cb)) 0"
    and "bn_gammas (FoldBN_result cb filterSize) =
           map (\<lambda>j. bn_gammas cb ! j * (1 / sqrt (bn_stddivs cb ! j + 1 / 100000)))
             [0..<length (bn_stddivs cb)]"
    and "biases (FoldBN_result cb filterSize) =
           map (\<lambda>j. - (bn_gammas cb ! j * (1 / sqrt (bn_stddivs cb ! j + 1 / 100000))) *
                       (bn_means cb ! j - biases cb ! j) + bn_betas cb ! j)
             [0..<length (bn_stddivs cb)]"
  using assms
  by (auto simp: fold_ready_def FoldBN_result_def Let_def after_fold_output_def
        after_variance_to_gamma_def intro!: nth_equalityI)

lemma FoldBN_result_weights:
  "weights (FoldBN_result cb filterSize) =
     scale_channels (weights cb) (bn_gammas (FoldBN_result cb filterSize))
       (length (weights cb) div (length (bn_stddivs cb) * (filterSize * filterSize)) *
          (filterSize * filterSize))
       (length (bn_stddivs cb))"
  by (simp add: FoldBN_result_def Let_def after_fold_output_def after_variance_to_gamma_def)

lemma FoldBN_result_ready:
  assumes "fold_ready cb filterSize"
  shows "fold_ready (FoldBN_result cb filterSize) filterSize"
  using assms
  by (simp add: fold_ready_def FoldBN_result_stats [OF assms] FoldBN_result_weights
        scale_channels_def)

section \<open>FoldBN stays in bounds\<close>

lemma for_n_preserves:
  assumes "Q s" and step: "\<And>i t. i < n \<Longrightarrow> Q t \<Longrightarrow> \<exists>t'. body i t = Inr t' \<and> Q t'"
  shows "\<exists>t. for_n n body s = Inr t \<and> Q t"
proof -
  have "k \<le> n \<Longrightarrow> \<exists>t. for_n k body s = Inr t \<and> Q t" for k
  proof (induction k)
    case 0
    then show ?case using assms(1) by simp
  next
    case (Suc k)
    then obtain t where t: "for_n k body s = Inr t" "Q t" by auto
    from Suc.prems have "k < n" by simp
    from step [OF this t(2)] show ?case by (simp add: t(1))
  qed
  then show ?thesis by simp
qed

lemma idx_le:
  "size_add (size_add (size_mul (size_mul oc inputs) spatialSize) (size_mul c spatialSize)) i
     \<le> oc * inputs * spatialSize + c * spatialSize + i"
  by (simp add: size_add_def size_mul_def mod_simps)

lemma flat_index_bound:
  fixes oc :: nat
  assumes "oc < n" "c < I" "i < S"
  shows "oc * I * S + c * S + i < n * I * S"
proof -
  have "c * S + i < Suc c * S" using assms(3) by simp
  also have "\<dots> \<le> I * S" using assms(2) by (intro mult_le_mono1) simp
  finally have "oc * (I * S) + (c * S + i) < Suc oc * (I * S)" by simp
  also have "\<dots> \<le> n * (I * S)" using assms(1) by (intro mult_le_mono1) simp
  finally show ?thesis by (simp add: mult.assoc add.assoc)
qed

lemma scale_weight_safe:
  assumes "same_sizes cb t" "oc < length (bn_gammas cb)" "c < inputs" "i < spatialSize"
    and "length (bn_gammas cb) * inputs * spatialSize \<le> length (weights cb)"
  shows "\<exists>t'. scale_weight inputs spatialSize oc c i t = Inr t' \<and> same_sizes cb t'"
proof -
  let ?idx = "size_add (size_add (size_mul (size_mul oc inputs) spatialSize)
                (size_mul c spatialSize)) i"
  have "?idx \<le> oc * inputs * spatialSize + c * spatialSize + i" by (rule idx_le)
  also have "\<dots> < length (bn_gammas cb) * inputs * spatialSize"
    using assms(2-4) by (rule flat_index_bound)
  finally have "?idx < length (weights t)" using assms(1,5) by (simp add: same_sizes_def)
  then show ?thesis
    using assms(1,2) by (simp add: scale_weight_def Let_def same_sizes_def)
qed

lemma fold_output_safe:
  assumes "same_sizes cb t" "oc < length (bn_gammas cb)"
    and "length (biases cb) = length (bn_gammas cb)"
        "length (bn_means cb) = length (bn_gammas cb)"
        "length (bn_betas cb) = length (bn_gammas cb)"
    and "length (bn_gammas cb) * inputs * spatialSize \<le> length (weights cb)"
  shows "\<exists>t'. fold_output inputs spatialSize oc t = Inr t' \<and> same_sizes cb t'"
proof -
  have inner: "\<exists>u'. for_n spatialSize (scale_weight inputs spatialSize oc c) u = Inr u' \<and>
                  same_sizes cb u'" if "same_sizes cb u" "c < inputs" for c u
    using that(1)
    by (rule for_n_preserves) (rule scale_weight_safe [OF _ assms(2) that(2) _ assms(6)])
  have "\<exists>u. for_n inputs (\<lambda>c. for_n spatialSize (scale_weight inputs spatialSize oc c)) t = Inr u \<and>
            same_sizes cb u"
    using assms(1) by (rule for_n_preserves) (rule inner)
  then obtain u where u: "for_n inputs (\<lambda>c. for_n spatialSize
      (scale_weight inputs spatialSize oc c)) t = Inr u" "same_sizes cb u" by blast
  show ?thesis
    using u(2) assms(2-5) by (simp add: fold_output_def u(1) Let_def same_sizes_def)
qed

lemma FoldBN_safe:
  assumes len: "length (biases cb) = n" "length (bn_gammas cb) = n" "length (bn_betas cb) = n"
      "length (bn_means cb) = n" "length (bn_stddivs cb) = n"
    and pos: "0 < n" "0 < filterSize"
    and fit: "n * (filterSize * filterSize) < 2 ^ 64"
  shows "\<exists>cb'. FoldBN cb filterSize = Inr cb' \<and> same_sizes cb cb'"
proof -
  let ?S = "filterSize * filterSize"
  let ?cb1 = "after_variance_to_gamma cb n"
  let ?I = "length (weights cb) div (n * ?S)"
  have l1: "for_n (length (bn_stddivs cb)) variance_to_gamma cb = Inr ?cb1"
    unfolding len by (rule v2g_loop) (simp_all add: len)
  have s1: "same_sizes ?cb1 ?cb1" "same_sizes cb ?cb1"
    by (simp_all add: same_sizes_def after_variance_to_gamma_def)
  have len1: "length (biases ?cb1) = n" "length (bn_gammas ?cb1) = n"
    "length (bn_betas ?cb1) = n" "length (bn_means ?cb1) = n" "weights ?cb1 = weights cb"
    by (simp_all add: after_variance_to_gamma_def len)
  have "?S \<le> n * ?S" using pos(1) by (cases n) simp_all
  moreover have fit': "n * ?S < SIZE_MOD" using fit by (simp add: SIZE_MOD_def)
  ultimately have "?S < SIZE_MOD" by (rule le_less_trans)
  then have S: "size_mul filterSize filterSize = ?S" by (simp add: size_mul_def)
  have d: "size_mul n ?S = n * ?S" using fit' by (simp add: size_mul_def)
  have dpos: "n * ?S \<noteq> 0" using pos by simp
  have "n * ?I * ?S = ?I * (n * ?S)" by (simp add: mult.assoc mult.left_commute)
  also have "\<dots> \<le> length (weights cb)" by (rule div_times_less_eq_dividend)
  finally have room: "length (bn_gammas ?cb1) * ?I * ?S \<le> length (weights ?cb1)"
    by (simp only: len1)
  have "\<exists>t. for_n n (fold_output ?I ?S) ?cb1 = Inr t \<and> same_sizes ?cb1 t"
    using s1(1)
  proof (rule for_n_preserves)
    fix i t assume "i < n" "same_sizes ?cb1 t"
    then show "\<exists>t'. fold_output ?I ?S i t = Inr t' \<and> same_sizes ?cb1 t'"
      using room by (intro fold_output_safe) (simp_all only: len1)
  qed
  then obtain t where t: "for_n n (fold_output ?I ?S) ?cb1 = Inr t" "same_sizes ?cb1 t"
    by blast
  have "FoldBN cb filterSize = Inr t"
    unfolding FoldBN_def l1 using dpos by (simp add: Let_def len1 S d t(1))
  moreover have "same_sizes cb t" using t(2) s1(2) by (simp add: same_sizes_def)
  ultimately show ?thesis by blast
qed

lemma FoldBN_zero_divisor:
  assumes len: "length (biases cb) = n" "length (bn_gammas cb) = n"
      "length (bn_means cb) = n" "length (bn_stddivs cb) = n"
    and z: "n = 0 \<or> filterSize = 0"
  shows "FoldBN cb filterSize = Inl DivisionByZero"
proof -
  let ?cb1 = "after_variance_to_gamma cb n"
  have l1: "for_n (length (bn_stddivs cb)) variance_to_gamma cb = Inr ?cb1"
    unfolding len by (rule v2g_loop) (simp_all add: len)
  have len1: "length (biases ?cb1) = n"
    by (simp add: after_variance_to_gamma_def len)
  have "size_mul n (size_mul filterSize filterSize) = 0"
    using z by (auto simp: size_mul_def)
  then show ?thesis
    unfolding FoldBN_def l1 by (simp add: Let_def len1)
qed

section \<open>Square roots of the examples\<close>

lemma sqrt_9: "sqrt 9 = 3"
  by (rule real_sqrt_unique) simp_all

lemma refold_changes:
  fixes c :: real
  assumes "c \<noteq> 0"
  shows "c / sqrt (100001 / 100000) \<noteq> c"
proof
  assume "c / sqrt (100001 / 100000) = c"
  moreover have "sqrt (100001 / 100000) > 0" by simp
  ultimately have "sqrt (100001 / 100000) = 1" using assms by (simp add: field_simps)
  then show False by simp
qed

section \<open>The constructor: claims\<close>

text \<open>
  C3, counterexample. A serialized block with two \<^verbatim>\<open>bn_stddivs\<close> and one \<^verbatim>\<open>bn_means\<close>:
  the constructor returns a block, and the block has the two \<^verbatim>\<open>bn_stddivs\<close> and the one
  \<^verbatim>\<open>bn_means\<close>.
\<close>

theorem ctor_keeps_mismatch_counterexample:
  "pb_bn_stddivs c3_input \<noteq> [] \<and>
   length (pb_bn_stddivs c3_input) \<noteq> length (pb_bn_means c3_input) \<and>
   ConvBlock_ctor c3_input =
     \<lparr>weights = [1], biases = [0], bn_gammas = [1], bn_betas = [0],
      bn_means = [0], bn_stddivs = [1, 2]\<rparr>"
  by (simp add: ctor_eq c3_input_def)

text \<open>
  C3, amended. The constructor has no failure path: for every serialized block it
  returns a block, whose \<^verbatim>\<open>weights\<close>, \<^verbatim>\<open>bn_means\<close> and \<^verbatim>\<open>bn_stddivs\<close> are the flattened
  layers as they came. A \<^verbatim>\<open>bn_stddivs\<close> layer whose size differs from that of
  \<^verbatim>\<open>bn_means\<close> is therefore carried into the block unchanged.
\<close>

theorem ctor_total_copy:
  "weights (ConvBlock_ctor b) = pb_weights b \<and>
   bn_means (ConvBlock_ctor b) = pb_bn_means b \<and>
   bn_stddivs (ConvBlock_ctor b) = pb_bn_stddivs b"
  by (simp add: ctor_eq)

text \<open>
  On the inputs the branch is written for (its comment: an old net without gamma and
  beta, so neither layer is there), the block gets one beta \<open>0\<close> and one gamma \<open>1\<close> for
  each mean; when the \<^verbatim>\<open>bn_betas\<close> layer is there (zero-filled or not), betas and gammas
  are the layers unchanged.
\<close>

lemma ctor_legacy_defaults:
  "(pb_bn_betas b = [] \<and> pb_bn_gammas b = [] \<longrightarrow>
      bn_betas (ConvBlock_ctor b) = replicate (length (pb_bn_means b)) 0 \<and>
      bn_gammas (ConvBlock_ctor b) = replicate (length (pb_bn_means b)) 1 \<and>
      length (bn_betas (ConvBlock_ctor b)) = length (bn_means (ConvBlock_ctor b))) \<and>
   (pb_bn_betas b \<noteq> [] \<longrightarrow>
      bn_betas (ConvBlock_ctor b) = pb_bn_betas b \<and>
      bn_gammas (ConvBlock_ctor b) = pb_bn_gammas b)"
  by (simp add: ctor_eq)

text \<open>
  C4. The claim asks, for every serialized block whose \<^verbatim>\<open>bn_betas\<close> layer is empty, for as
  many betas as means, each \<open>0\<close>, and for every gamma to be \<open>1\<close>. The constructor tests
  only \<^verbatim>\<open>bn_betas.size() == 0\<close> and appends to \<^verbatim>\<open>bn_gammas\<close> without looking at it. On a
  serialized block of two channels with no \<^verbatim>\<open>bn_betas\<close> and one \<^verbatim>\<open>bn_gammas\<close> the betas are
  the two \<open>0\<close> the claim asks for, but the two \<open>1\<close> are appended to the gamma that is
  there: the block has three gammas for its two means and the first of them is \<open>5\<close>.
\<close>

theorem ctor_gammas_appended:
  "pb_bn_betas c4_input = [] \<and>
   bn_betas (ConvBlock_ctor c4_input) = [0, 0] \<and>
   bn_means (ConvBlock_ctor c4_input) = [0, 0] \<and>
   bn_gammas (ConvBlock_ctor c4_input) = [5, 1, 1] \<and>
   bn_gammas (ConvBlock_ctor c4_input) ! 0 \<noteq> 1 \<and>
   length (bn_gammas (ConvBlock_ctor c4_input)) \<noteq> length (bn_means (ConvBlock_ctor c4_input))"
  by (simp add: ctor_eq c4_input_def)

text \<open>
  C5. With \<open>n\<close> the number of elements of \<^verbatim>\<open>bn_means\<close>: when the flattened \<^verbatim>\<open>biases\<close>
  layer is empty, the constructed block has \<open>n\<close> biases, as many as it has means, and
  each of them is \<open>0\<close>; when the layer is not empty the biases are the layer unchanged.
\<close>

theorem ctor_default_biases:
  "(pb_biases b = [] \<longrightarrow>
      biases (ConvBlock_ctor b) = replicate (length (pb_bn_means b)) 0 \<and>
      length (biases (ConvBlock_ctor b)) = length (bn_means (ConvBlock_ctor b))) \<and>
   (pb_biases b \<noteq> [] \<longrightarrow> biases (ConvBlock_ctor b) = pb_biases b)"
  by (simp add: ctor_biases ctor_means)

theorem ctor_default_biases_witness:
  "pb_biases c5_absent = [] \<and> biases (ConvBlock_ctor c5_absent) = [0, 0] \<and>
   length (bn_means (ConvBlock_ctor c5_absent)) = 2 \<and>
   pb_biases c5_present \<noteq> [] \<and> biases (ConvBlock_ctor c5_present) = [7, 0]"
  using ctor_default_biases [of c5_absent] ctor_default_biases [of c5_present]
  by (simp add: c5_absent_def c5_present_def ctor_means)

text \<open>
  C6, counterexample. A serialized block with three biases and one mean: the constructed
  block has three biases and one mean.
\<close>

theorem ctor_invariant_counterexample:
  "length (biases (ConvBlock_ctor c6_input)) = 3 \<and>
   length (bn_means (ConvBlock_ctor c6_input)) = 1 \<and>
   length (biases (ConvBlock_ctor c6_input)) \<noteq> length (bn_means (ConvBlock_ctor c6_input))"
  by (simp add: ctor_eq c6_input_def)

text \<open>
  C6, amended. The constructed block has as many biases, gammas, betas and stddivs as it
  has means exactly when the serialized block has as many \<^verbatim>\<open>bn_stddivs\<close> as \<^verbatim>\<open>bn_means\<close>,
  its \<^verbatim>\<open>biases\<close> layer is empty or has that many elements, and its \<^verbatim>\<open>bn_betas\<close> and
  \<^verbatim>\<open>bn_gammas\<close> layers are both empty or both have that many elements.
\<close>

theorem ctor_invariant_iff:
  "(length (biases (ConvBlock_ctor b)) = length (bn_means (ConvBlock_ctor b)) \<and>
    length (bn_gammas (ConvBlock_ctor b)) = length (bn_means (ConvBlock_ctor b)) \<and>
    length (bn_betas (ConvBlock_ctor b)) = length (bn_means (ConvBlock_ctor b)) \<and>
    length (bn_stddivs (ConvBlock_ctor b)) = length (bn_means (ConvBlock_ctor b)))
   =
   (length (pb_bn_stddivs b) = length (pb_bn_means b) \<and>
    (pb_biases b = [] \<or> length (pb_biases b) = length (pb_bn_means b)) \<and>
    (pb_bn_betas b = [] \<and> pb_bn_gammas b = [] \<or>
     length (pb_bn_betas b) = length (pb_bn_means b) \<and>
     length (pb_bn_gammas b) = length (pb_bn_means b)))"
  by (auto simp: ctor_eq)

theorem ctor_invariant_iff_witness:
  "length (biases (ConvBlock_ctor c6_legacy)) = 2 \<and>
   length (bn_gammas (ConvBlock_ctor c6_legacy)) = 2 \<and>
   length (bn_betas (ConvBlock_ctor c6_legacy)) = 2 \<and>
   length (bn_stddivs (ConvBlock_ctor c6_legacy)) = 2 \<and>
   length (bn_means (ConvBlock_ctor c6_legacy)) = 2"
  using ctor_invariant_iff [of c6_legacy]
  by (simp add: c6_legacy_def ctor_means)

section \<open>The accessors: claims\<close>

lemma InvertStddev_writes:
  "bn_stddivs (InvertStddev cb) = map (\<lambda>s. 1 / sqrt (s + 1 / 100000)) (bn_stddivs cb)"
  by (simp add: InvertStddev_def InvertVector_def kEpsilon_def)

text \<open>
  C8. \<^verbatim>\<open>GetInvertedStddev()\<close> returns the vector whose element \<open>i\<close> is
  \<open>1 / sqrt (stddev_i + 1e-5)\<close>, one element for each element of \<^verbatim>\<open>bn_stddivs\<close>, and the
  block after the call is the block before it: \<^verbatim>\<open>bn_stddivs\<close> and every other field are
  unchanged. (The mutating sibling \<^verbatim>\<open>InvertStddev\<close> stores the same vector into the
  block, see \<open>InvertStddev_writes\<close>.)
\<close>

theorem GetInvertedStddev_pure:
  "GetInvertedStddev cb =
     (map (\<lambda>s. 1 / sqrt (s + 1 / 100000)) (bn_stddivs cb), cb)"
  by (simp add: GetInvertedStddev_def InvertVector_def kEpsilon_def)

lemma OffsetVector_nth:
  assumes "length means \<le> length bs"
  shows "OffsetVector means bs = Inr (map (\<lambda>i. means ! i - bs ! i) [0..<length means])"
  using assms by (auto simp: OffsetVector_def intro!: nth_equalityI)

lemma OffsetMeans_writes:
  "length (bn_means cb) \<le> length (biases cb) \<Longrightarrow>
   OffsetMeans cb = Inr (cb\<lparr>bn_means := map (\<lambda>i. bn_means cb ! i - biases cb ! i)
                                           [0..<length (bn_means cb)]\<rparr>)"
  by (simp add: OffsetMeans_def OffsetVector_nth)

text \<open>
  C9, counterexample. The block the constructor builds from a serialized block with one
  bias and two means has one bias and two means; on it \<^verbatim>\<open>std::transform\<close> reads a second
  element of \<^verbatim>\<open>biases\<close>, past its end, and \<^verbatim>\<open>GetOffsetMeans()\<close> returns no vector.
\<close>

theorem GetOffsetMeans_short_biases_counterexample:
  "biases (ConvBlock_ctor c9_input) = [1] \<and>
   bn_means (ConvBlock_ctor c9_input) = [4, 10] \<and>
   GetOffsetMeans (ConvBlock_ctor c9_input) = Inl OutOfRange"
  by (simp add: ctor_eq c9_input_def GetOffsetMeans_def OffsetVector_def)

text \<open>
  C9, amended. On every block that has at least as many biases as means,
  \<^verbatim>\<open>GetOffsetMeans()\<close> returns the vector whose element \<open>i\<close> is \<open>mean_i - bias_i\<close>, one
  element for each mean, and the block after the call is the block before it:
  \<^verbatim>\<open>bn_means\<close>, \<^verbatim>\<open>biases\<close> and every other field are unchanged. (The mutating sibling
  \<^verbatim>\<open>OffsetMeans\<close> stores the same vector into the block, see \<open>OffsetMeans_writes\<close>.)
\<close>

theorem GetOffsetMeans_pure:
  assumes "length (bn_means cb) \<le> length (biases cb)"
  shows "\<exists>r. GetOffsetMeans cb = Inr (r, cb) \<and> length r = length (bn_means cb) \<and>
             (\<forall>i<length (bn_means cb). r ! i = bn_means cb ! i - biases cb ! i)"
  using assms by (simp add: GetOffsetMeans_def OffsetVector_nth)

theorem GetOffsetMeans_pure_witness:
  "length (bn_means c9_block) \<le> length (biases c9_block) \<and>
   GetOffsetMeans c9_block = Inr ([3, 7], c9_block)"
proof -
  have h: "length (bn_means c9_block) \<le> length (biases c9_block)"
    by (simp add: c9_block_def)
  from GetOffsetMeans_pure [OF h]
  obtain r where r: "GetOffsetMeans c9_block = Inr (r, c9_block)" "length r = 2"
    "\<forall>i<2. r ! i = bn_means c9_block ! i - biases c9_block ! i"
    by (auto simp: c9_block_def)
  have "r = [3, 7]"
    using r(2,3) by (intro nth_equalityI) (auto simp: c9_block_def less_Suc_eq numeral_2_eq_2)
  with r(1) h show ?thesis by simp
qed

section \<open>FoldBN: claims\<close>

text \<open>
  C10, counterexample. A block of one channel and the filter size \<open>2 ^ 32\<close>: the channel
  count and the filter size are positive, \<^verbatim>\<open>filterSize * filterSize\<close> wraps around to \<open>0\<close>,
  and the division divides by zero.
\<close>

theorem FoldBN_wraps_counterexample:
  "length (biases c10_block) = 1 \<and> length (bn_gammas c10_block) = 1 \<and>
   length (bn_betas c10_block) = 1 \<and> length (bn_means c10_block) = 1 \<and>
   length (bn_stddivs c10_block) = 1 \<and> (0::nat) < 4294967296 \<and>
   FoldBN c10_block 4294967296 = Inl DivisionByZero"
  by (simp add: c10_block_def FoldBN_def variance_to_gamma_def Let_def size_mul_def SIZE_MOD_def)

text \<open>
  C10, amended. \<^verbatim>\<open>FoldBN(filterSize)\<close> computes
  \<^verbatim>\<open>inputs = weights.size() / (biases.size() * filterSize * filterSize)\<close> with no guard. For
  a block whose \<^verbatim>\<open>biases\<close>, \<^verbatim>\<open>bn_gammas\<close>, \<^verbatim>\<open>bn_betas\<close>, \<^verbatim>\<open>bn_means\<close> and \<^verbatim>\<open>bn_stddivs\<close>
  all have \<open>n\<close> elements: if \<open>n > 0\<close>, \<open>filterSize > 0\<close> and \<open>n * filterSize\<^sup>2\<close> is below
  \<open>2 ^ 64\<close>, so that the product does not wrap around, then \<^verbatim>\<open>FoldBN\<close> runs to its end,
  with every vector access in bounds and a divisor that is not zero, also when the
  quotient truncates; if \<open>n = 0\<close> or \<open>filterSize = 0\<close> the division divides by zero.
\<close>

theorem FoldBN_defined:
  assumes "length (biases cb) = n" "length (bn_gammas cb) = n" "length (bn_betas cb) = n"
      "length (bn_means cb) = n" "length (bn_stddivs cb) = n"
  shows "(0 < n \<and> 0 < filterSize \<and> n * (filterSize * filterSize) < 2 ^ 64 \<longrightarrow>
            (\<exists>cb'. FoldBN cb filterSize = Inr cb')) \<and>
         (n = 0 \<or> filterSize = 0 \<longrightarrow> FoldBN cb filterSize = Inl DivisionByZero)"
  using FoldBN_safe [OF assms] FoldBN_zero_divisor [OF assms(1,2,4,5)] by blast

theorem FoldBN_defined_witness:
  "length (biases c10_block) = 1 \<and> length (bn_gammas c10_block) = 1 \<and>
   length (bn_betas c10_block) = 1 \<and> length (bn_means c10_block) = 1 \<and>
   length (bn_stddivs c10_block) = 1 \<and>
   (\<exists>cb'. FoldBN c10_block 3 = Inr cb') \<and> FoldBN c10_block 0 = Inl DivisionByZero"
proof -
  have len: "length (biases c10_block) = 1" "length (bn_gammas c10_block) = 1"
    "length (bn_betas c10_block) = 1" "length (bn_means c10_block) = 1"
    "length (bn_stddivs c10_block) = 1"
    by (simp_all add: c10_block_def)
  from FoldBN_defined [OF len, of 3] have "\<exists>cb'. FoldBN c10_block 3 = Inr cb'" by simp
  moreover from FoldBN_defined [OF len, of 0] have "FoldBN c10_block 0 = Inl DivisionByZero"
    by simp
  ultimately show ?thesis using len by blast
qed

text \<open>
  C2, counterexample. The spec's example: ten weights, three output channels, filter
  size two, and \<open>3 * 2\<^sup>2\<close> does not divide \<open>10\<close>. \<^verbatim>\<open>FoldBN(2)\<close> does not fail: the quotient
  truncates to \<open>0\<close>, no weight is scaled, and the biases and the statistics are
  overwritten.
\<close>

theorem FoldBN_no_precondition_counterexample:
  "length (weights c2_block) = 10 \<and> length (biases c2_block) = 3 \<and>
   \<not> (3 * (2 * 2) :: nat) dvd 10 \<and>
   FoldBN c2_block 2 =
     Inr \<lparr>weights = [1, 2, 3, 4, 5, 6, 7, 8, 9, 10], biases = [- 2, - 2, - 2],
          bn_gammas = [2, 2, 2], bn_betas = [0, 0, 0], bn_means = [0, 0, 0],
          bn_stddivs = [1, 1, 1]\<rparr>"
  by (simp add: c2_block_def FoldBN_def variance_to_gamma_def fold_output_def Let_def
        size_mul_def SIZE_MOD_def)

text \<open>
  C2, amended. For a block that \<^verbatim>\<open>FoldBN\<close> can run on (\<open>fold_ready\<close>) and a filter size
  such that \<open>len(biases) * filterSize\<^sup>2\<close> does not divide \<open>len(weights)\<close>, \<^verbatim>\<open>FoldBN\<close> does
  not fail and does mutate the block: it takes the truncated quotient
  \<open>inputs = len(weights) div (len(biases) * filterSize\<^sup>2)\<close>, overwrites the statistics and
  the biases as in the dividing case, and scales the first
  \<open>len(biases) * inputs * filterSize\<^sup>2\<close> weights, which are fewer than \<open>len(weights)\<close>; the
  weights after them are left as they were.
\<close>

theorem FoldBN_truncates:
  assumes "fold_ready cb filterSize"
    and "\<not> length (biases cb) * (filterSize * filterSize) dvd length (weights cb)"
  shows "\<exists>cb'. FoldBN cb filterSize = Inr cb' \<and>
           bn_stddivs cb' = replicate (length (biases cb)) 1 \<and>
           bn_means cb' = replicate (length (biases cb)) 0 \<and>
           bn_betas cb' = replicate (length (biases cb)) 0 \<and>
           bn_gammas cb' = map (\<lambda>j. bn_gammas cb ! j * (1 / sqrt (bn_stddivs cb ! j + 1 / 100000)))
                             [0..<length (biases cb)] \<and>
           biases cb' = map (\<lambda>j. - (bn_gammas cb' ! j) * (bn_means cb ! j - biases cb ! j)
                                   + bn_betas cb ! j) [0..<length (biases cb)] \<and>
           weights cb' =
             scale_channels (weights cb) (bn_gammas cb')
               (length (weights cb) div (length (biases cb) * (filterSize * filterSize)) *
                  (filterSize * filterSize))
               (length (biases cb)) \<and>
           length (biases cb) *
             (length (weights cb) div (length (biases cb) * (filterSize * filterSize)) *
                (filterSize * filterSize)) < length (weights cb)"
proof -
  let ?n = "length (biases cb)"
  let ?S = "filterSize * filterSize"
  let ?I = "length (weights cb) div (?n * ?S)"
  let ?r = "FoldBN_result cb filterSize"
  have n: "length (bn_stddivs cb) = ?n" using assms(1) by (simp add: fold_ready_def)
  note st = FoldBN_result_stats [OF assms(1), unfolded n]
  have g: "- (bn_gammas ?r ! j) * (bn_means cb ! j - biases cb ! j) + bn_betas cb ! j =
           - (bn_gammas cb ! j * (1 / sqrt (bn_stddivs cb ! j + 1 / 100000))) *
               (bn_means cb ! j - biases cb ! j) + bn_betas cb ! j" if "j < ?n" for j
    using that by (simp add: st(4))
  have b: "biases ?r = map (\<lambda>j. - (bn_gammas ?r ! j) * (bn_means cb ! j - biases cb ! j)
                                   + bn_betas cb ! j) [0..<?n]"
    unfolding st(5)
  proof (rule map_cong [OF refl])
    fix j assume "j \<in> set [0..<?n]"
    then have "j < ?n" by simp
    from g [OF this] show
      "- (bn_gammas cb ! j * (1 / sqrt (bn_stddivs cb ! j + 1 / 100000))) *
         (bn_means cb ! j - biases cb ! j) + bn_betas cb ! j =
       - (bn_gammas ?r ! j) * (bn_means cb ! j - biases cb ! j) + bn_betas cb ! j"
      by (rule sym)
  qed
  have "length (weights cb) mod (?n * ?S) \<noteq> 0"
    using assms(2) by (simp add: dvd_eq_mod_eq_0)
  moreover have "?I * (?n * ?S) + length (weights cb) mod (?n * ?S) = length (weights cb)"
    by (rule div_mult_mod_eq)
  ultimately have "?I * (?n * ?S) < length (weights cb)" by linarith
  moreover have "?n * (?I * ?S) = ?I * (?n * ?S)" by (rule mult.left_commute)
  ultimately have lt: "?n * (?I * ?S) < length (weights cb)" by (simp only:)
  show ?thesis
    using FoldBN_closed [OF assms(1)] st(1-4) b FoldBN_result_weights [of cb filterSize] lt
    by (simp add: n)
qed

theorem FoldBN_truncates_witness:
  "fold_ready c2_single 2 \<and>
   \<not> length (biases c2_single) * (2 * 2) dvd length (weights c2_single) \<and>
   (\<exists>cb'. FoldBN c2_single 2 = Inr cb' \<and> bn_gammas cb' = [2] \<and> biases cb' = [- 2] \<and>
          weights cb' = [2, 4, 6, 8, 10, 12, 14, 16, 9, 10])"
proof -
  have h1: "fold_ready c2_single 2" by (simp add: fold_ready_def c2_single_def)
  have "length (weights c2_single) = 10" "length (biases c2_single) = 1"
    by (simp_all add: c2_single_def)
  then have h2: "\<not> length (biases c2_single) * (2 * 2) dvd length (weights c2_single)"
    by (simp only:) simp
  from FoldBN_truncates [OF h1 h2] obtain cb' where
    r: "FoldBN c2_single 2 = Inr cb'"
       "bn_gammas cb' = map (\<lambda>j. bn_gammas c2_single ! j *
            (1 / sqrt (bn_stddivs c2_single ! j + 1 / 100000))) [0..<length (biases c2_single)]"
       "biases cb' = map (\<lambda>j. - (bn_gammas cb' ! j) * (bn_means c2_single ! j - biases c2_single ! j)
                                   + bn_betas c2_single ! j) [0..<length (biases c2_single)]"
       "weights cb' = scale_channels (weights c2_single) (bn_gammas cb')
               (length (weights c2_single) div (length (biases c2_single) * (2 * 2)) * (2 * 2))
               (length (biases c2_single))"
    by blast
  have g: "bn_gammas cb' = [2]" using r(2) by (simp add: c2_single_def)
  have b: "biases cb' = [- 2]" using r(3) by (simp add: g) (simp add: c2_single_def)
  have w: "weights cb' = [2, 4, 6, 8, 10, 12, 14, 16, 9, 10]"
    using r(4) by (simp add: g scale_channels_def c2_single_def upt_rec)
  from h1 h2 r(1) g b w show ?thesis by blast
qed

text \<open>
  C7, counterexample. The spec's worked example, folded once and then once more: the
  second \<^verbatim>\<open>FoldBN(1)\<close> changes the weight, the bias and the gamma.
\<close>

theorem FoldBN_twice_counterexample:
  "FoldBN c7_block 1 = Inr c7_folded \<and> FoldBN c7_folded 1 = Inr c7_refolded \<and>
   weights c7_refolded \<noteq> weights c7_folded \<and>
   biases c7_refolded \<noteq> biases c7_folded \<and>
   bn_gammas c7_refolded \<noteq> bn_gammas c7_folded"
  by (simp add: c7_block_def c7_folded_def c7_refolded_def FoldBN_def variance_to_gamma_def
        fold_output_def scale_weight_def Let_def size_mul_def size_add_def SIZE_MOD_def sqrt_9
        refold_changes)

text \<open>
  C7, amended. On a block that \<^verbatim>\<open>FoldBN(filterSize)\<close> has been applied to once, a second
  \<^verbatim>\<open>FoldBN(filterSize)\<close> leaves \<^verbatim>\<open>bn_stddivs\<close>, \<^verbatim>\<open>bn_means\<close> and \<^verbatim>\<open>bn_betas\<close> unchanged; it
  multiplies each gamma by \<open>1 / sqrt (1 + 1e-5)\<close>, each bias by the new gamma of its
  channel, and each kernel weight that the fold reaches by the new gamma of its channel.
\<close>

theorem FoldBN_second_fold:
  assumes "fold_ready cb filterSize" and "FoldBN cb filterSize = Inr cb1"
  shows "\<exists>cb2. FoldBN cb1 filterSize = Inr cb2 \<and>
           bn_stddivs cb2 = bn_stddivs cb1 \<and> bn_means cb2 = bn_means cb1 \<and>
           bn_betas cb2 = bn_betas cb1 \<and>
           bn_gammas cb2 = map (\<lambda>g. g * (1 / sqrt (1 + 1 / 100000))) (bn_gammas cb1) \<and>
           biases cb2 = map (\<lambda>(g, b). g * b) (zip (bn_gammas cb2) (biases cb1)) \<and>
           weights cb2 =
             scale_channels (weights cb1) (bn_gammas cb2)
               (length (weights cb1) div (length (biases cb1) * (filterSize * filterSize)) *
                  (filterSize * filterSize))
               (length (biases cb1))"
proof -
  let ?n = "length (bn_stddivs cb)"
  have cb1: "cb1 = FoldBN_result cb filterSize"
    using FoldBN_closed [OF assms(1)] assms(2) by simp
  have r1: "fold_ready cb1 filterSize"
    unfolding cb1 using assms(1) by (rule FoldBN_result_ready)
  note s1 = FoldBN_result_stats [OF assms(1), folded cb1]
  have n1: "length (bn_stddivs cb1) = ?n" "length (biases cb1) = ?n"
    "length (bn_gammas cb1) = ?n"
    by (simp_all add: s1)
  note s2 = FoldBN_result_stats [OF r1, unfolded n1]
  let ?cb2 = "FoldBN_result cb1 filterSize"
  have g2: "bn_gammas ?cb2 = map (\<lambda>g. g * (1 / sqrt (1 + 1 / 100000))) (bn_gammas cb1)"
    unfolding s2(4) by (rule nth_equalityI) (simp_all add: n1 s1(1))
  have b2: "biases ?cb2 = map (\<lambda>(g, b). g * b) (zip (bn_gammas ?cb2) (biases cb1))"
    unfolding s2(5) g2
    by (rule nth_equalityI) (simp_all add: n1 s1(1,2,3))
  show ?thesis
    using FoldBN_closed [OF r1] s2(1-3) s1(1-3) g2 b2 FoldBN_result_weights [of cb1 filterSize]
    by (simp add: n1)
qed

theorem FoldBN_second_fold_witness:
  "fold_ready c7_block 1 \<and> FoldBN c7_block 1 = Inr c7_folded \<and>
   (\<exists>cb2. FoldBN c7_folded 1 = Inr cb2 \<and> bn_stddivs cb2 = [1] \<and> bn_means cb2 = [0] \<and>
      bn_betas cb2 = [0] \<and> bn_gammas cb2 = [1 / sqrt (1 + 1 / 100000)])"
proof -
  have h1: "fold_ready c7_block 1" by (simp add: fold_ready_def c7_block_def)
  have h2: "FoldBN c7_block 1 = Inr c7_folded"
    by (simp add: c7_block_def c7_folded_def FoldBN_def variance_to_gamma_def
        fold_output_def scale_weight_def Let_def size_mul_def size_add_def SIZE_MOD_def sqrt_9)
  from FoldBN_second_fold [OF h1 h2] h1 h2 show ?thesis
    by (auto simp: c7_folded_def)
qed

lemma scale_channels_nth:
  assumes "oc < n" "c < I" "p < S" "n * I * S \<le> length ws"
  shows "scale_channels ws g (I * S) n ! (oc * I * S + c * S + p) =
         ws ! (oc * I * S + c * S + p) * g ! oc"
proof -
  let ?j = "oc * I * S + c * S + p"
  have lt: "?j < n * I * S" using assms(1-3) by (rule flat_index_bound)
  have "c * S + p < Suc c * S" using assms(3) by simp
  also have "\<dots> \<le> I * S" using assms(2) by (intro mult_le_mono1) simp
  finally have "?j < oc * (I * S) + I * S" by (simp add: mult.assoc)
  moreover have "oc * (I * S) \<le> ?j" by (simp add: mult.assoc)
  ultimately have "?j div (I * S) = oc" by (intro channel_of_index)
  then show ?thesis
    using lt assms(4) by (simp add: scale_channels_def mult.assoc)
qed

text \<open>
  C1. For a block that \<^verbatim>\<open>FoldBN\<close> can run on (\<open>fold_ready\<close>) and whose \<^verbatim>\<open>weights\<close> are the
  kernel of a convolution with \<open>inputs\<close> input channels and the filter size given to
  \<^verbatim>\<open>FoldBN\<close>, for every output channel \<open>oc\<close> and all input values \<open>x\<close>: the convolution with
  the weights and biases that \<^verbatim>\<open>FoldBN\<close> leaves in the block gives exactly the value that
  the original convolution followed by the original batch normalization
  \<open>(y - mean) * (1 / sqrt (stddev + 1e-5)) * gamma + beta\<close> gives. The identity is one of
  real arithmetic.
\<close>

theorem FoldBN_folding_identity:
  assumes "fold_ready cb filterSize"
    and "length (weights cb) = length (biases cb) * inputs * (filterSize * filterSize)"
    and "oc < length (biases cb)"
  shows "\<exists>cb'. FoldBN cb filterSize = Inr cb' \<and>
           conv_out cb' inputs (filterSize * filterSize) oc x =
           batch_norm cb oc (conv_out cb inputs (filterSize * filterSize) oc x)"
proof -
  let ?n = "length (biases cb)"
  let ?S = "filterSize * filterSize"
  let ?r = "FoldBN_result cb filterSize"
  let ?G = "bn_gammas cb ! oc * (1 / sqrt (bn_stddivs cb ! oc + 1 / 100000))"
  let ?idx = "\<lambda>c p. oc * inputs * ?S + c * ?S + p"
  have n: "length (bn_stddivs cb) = ?n" and pos: "0 < ?n" "0 < filterSize"
    using assms(1) by (simp_all add: fold_ready_def)
  note st = FoldBN_result_stats [OF assms(1), unfolded n]
  have "0 < ?n * ?S" using pos by simp
  then have "length (weights cb) div (?n * ?S) = inputs"
    unfolding assms(2) by (simp add: mult.assoc mult.left_commute [of inputs])
  then have w: "weights ?r = scale_channels (weights cb) (bn_gammas ?r) (inputs * ?S) ?n"
    using FoldBN_result_weights [of cb filterSize] by (simp add: n)
  have g: "bn_gammas ?r ! oc = ?G" using assms(3) by (simp add: st(4))
  have b: "biases ?r ! oc = - ?G * (bn_means cb ! oc - biases cb ! oc) + bn_betas cb ! oc"
    using assms(3) by (simp add: st(5))
  have wn: "weights ?r ! ?idx c p = weights cb ! ?idx c p * ?G" if "c < inputs" "p < ?S" for c p
    unfolding w using assms(3) that by (simp add: scale_channels_nth assms(2) g)
  have inner: "(\<Sum>p\<leftarrow>[0..<?S]. weights ?r ! ?idx c p * x c p) =
               (\<Sum>p\<leftarrow>[0..<?S]. weights cb ! ?idx c p * x c p) * ?G" if "c < inputs" for c
  proof -
    have "(\<Sum>p\<leftarrow>[0..<?S]. weights ?r ! ?idx c p * x c p) =
          (\<Sum>p\<leftarrow>[0..<?S]. (weights cb ! ?idx c p * x c p) * ?G)"
      by (rule arg_cong [where f = sum_list], rule map_cong [OF refl])
         (simp add: wn [OF that])
    then show ?thesis by (simp only: sum_list_mult_const)
  qed
  have outer: "(\<Sum>c\<leftarrow>[0..<inputs]. \<Sum>p\<leftarrow>[0..<?S]. weights ?r ! ?idx c p * x c p) =
               (\<Sum>c\<leftarrow>[0..<inputs]. \<Sum>p\<leftarrow>[0..<?S]. weights cb ! ?idx c p * x c p) * ?G"
  proof -
    have "(\<Sum>c\<leftarrow>[0..<inputs]. \<Sum>p\<leftarrow>[0..<?S]. weights ?r ! ?idx c p * x c p) =
          (\<Sum>c\<leftarrow>[0..<inputs]. (\<Sum>p\<leftarrow>[0..<?S]. weights cb ! ?idx c p * x c p) * ?G)"
      by (rule arg_cong [where f = sum_list], rule map_cong [OF refl]) (simp add: inner)
    then show ?thesis by (simp only: sum_list_mult_const)
  qed
  define r where "r = 1 / sqrt (bn_stddivs cb ! oc + 1 / 100000)"
  have "conv_out ?r inputs ?S oc x = batch_norm cb oc (conv_out cb inputs ?S oc x)"
    unfolding conv_out_def batch_norm_def outer b r_def [symmetric]
    by (simp add: algebra_simps)
  with FoldBN_closed [OF assms(1)] show ?thesis by blast
qed

theorem FoldBN_folding_identity_witness:
  "fold_ready c1_block 1 \<and>
   length (weights c1_block) = length (biases c1_block) * 1 * (1 * 1) \<and>
   0 < length (biases c1_block) \<and>
   batch_norm c1_block 0 (conv_out c1_block 1 (1 * 1) 0 (\<lambda>c p. 5)) = 15 / 2 \<and>
   (\<exists>cb'. FoldBN c1_block 1 = Inr cb' \<and> conv_out cb' 1 (1 * 1) 0 (\<lambda>c p. 5) = 15 / 2)"
proof -
  have h1: "fold_ready c1_block 1" by (simp add: fold_ready_def c1_block_def)
  have h2: "length (weights c1_block) = length (biases c1_block) * 1 * (1 * 1)"
    by (simp add: c1_block_def)
  have h3: "0 < length (biases c1_block)" by (simp add: c1_block_def)
  have v: "batch_norm c1_block 0 (conv_out c1_block 1 (1 * 1) 0 (\<lambda>c p. 5)) = 15 / 2"
    by (simp add: batch_norm_def conv_out_def c1_block_def sqrt_9)
  from FoldBN_folding_identity [OF h1 h2 h3, of "\<lambda>c p. 5"] obtain cb' where
    "FoldBN c1_block 1 = Inr cb'"
    "conv_out cb' 1 (1 * 1) 0 (\<lambda>c p. 5) =
       batch_norm c1_block 0 (conv_out c1_block 1 (1 * 1) 0 (\<lambda>c p. 5))"
    by blast
  with h1 h2 h3 v show ?thesis by (simp only:) blast
qed

end
